theory Spec2Isabelle
  imports Main
begin

section \<open>The calls a driver makes on its collaborators\<close>

text \<open>
  Both drivers are a \<open>main\<close> function that talks to three collaborators of the
  simulation library: the context (or the global \<open>Verilated\<close> state), the compiled
  model and the waveform recorder. The model and the recorder are opaque, so a run is
  observed as the ordered list of the calls \<open>main\<close> makes, together with what is
  written to standard output.
\<close>

datatype out_item = Str string | Num int | Endl

datatype event =
    NewContext
  | CommandArgs "string list"
  | NewModel
  | TraceEverOn bool
  | NewRecorder
  | Trace nat
  | Open string
  | TimeInc nat
  | SetClk bool
  | Eval
  | Dump int
  | Close
  | DeleteModel
  | DeleteContext
  | Cout out_item

fun is_dump :: "event \<Rightarrow> bool" where
  "is_dump (Dump t) = True"
| "is_dump e = False"

fun is_open :: "event \<Rightarrow> bool" where
  "is_open (Open p) = True"
| "is_open e = False"

fun is_setclk :: "event \<Rightarrow> bool" where
  "is_setclk (SetClk b) = True"
| "is_setclk e = False"

fun is_close :: "event \<Rightarrow> bool" where
  "is_close Close = True"
| "is_close e = False"

fun is_new_model :: "event \<Rightarrow> bool" where
  "is_new_model NewModel = True"
| "is_new_model e = False"

text \<open>\<open>traceEverOn(true)\<close>: the call that switches tracing on.\<close>

fun is_trace_on :: "event \<Rightarrow> bool" where
  "is_trace_on (TraceEverOn b) = b"
| "is_trace_on e = False"

fun is_new_recorder :: "event \<Rightarrow> bool" where
  "is_new_recorder NewRecorder = True"
| "is_new_recorder e = False"

text \<open>\<open>top->trace(tfp, depth)\<close>: the call that binds the recorder to the model.\<close>

fun is_bind :: "event \<Rightarrow> bool" where
  "is_bind (Trace d) = True"
| "is_bind e = False"

fun dump_times :: "event list \<Rightarrow> int list" where
  "dump_times [] = []"
| "dump_times (Dump t # es) = t # dump_times es"
| "dump_times (e # es) = dump_times es"

fun clk_values :: "event list \<Rightarrow> bool list" where
  "clk_values [] = []"
| "clk_values (SetClk b # es) = b # clk_values es"
| "clk_values (e # es) = clk_values es"

fun printed :: "event list \<Rightarrow> out_item list" where
  "printed [] = []"
| "printed (Cout x # es) = x # printed es"
| "printed (e # es) = printed es"

definition count_ev :: "(event \<Rightarrow> bool) \<Rightarrow> event list \<Rightarrow> nat" where
  "count_ev P es = length (filter P es)"

text \<open>The calls made strictly before, and strictly after, the first call that satisfies \<open>P\<close>.\<close>

definition before_first :: "(event \<Rightarrow> bool) \<Rightarrow> event list \<Rightarrow> event list" where
  "before_first P es = takeWhile (\<lambda>e. \<not> P e) es"

definition after_first :: "(event \<Rightarrow> bool) \<Rightarrow> event list \<Rightarrow> event list" where
  "after_first P es = tl (dropWhile (\<lambda>e. \<not> P e) es)"

text \<open>The position of the first call that satisfies \<open>P\<close>, if there is one.\<close>

fun first_index :: "(event \<Rightarrow> bool) \<Rightarrow> event list \<Rightarrow> nat option" where
  "first_index P [] = None"
| "first_index P (e # es) = (if P e then Some 0 else map_option Suc (first_index P es))"

text \<open>Some call satisfying \<open>P\<close> is made, and the first of them comes before the first
  call satisfying \<open>Q\<close> (which is made too).\<close>

definition precedes :: "(event \<Rightarrow> bool) \<Rightarrow> (event \<Rightarrow> bool) \<Rightarrow> event list \<Rightarrow> bool" where
  "precedes P Q es =
     (case first_index P es of
        None \<Rightarrow> False
      | Some i \<Rightarrow> (case first_index Q es of None \<Rightarrow> False | Some j \<Rightarrow> i < j))"

text \<open>The recorder's life cycle in a list of calls: one \<open>open\<close>, one \<open>close\<close>, no
  \<open>dump\<close> before the \<open>open\<close> and none after the \<open>close\<close>.\<close>

definition recorder_lifecycle :: "event list \<Rightarrow> bool" where
  "recorder_lifecycle es =
     (count_ev is_open es = 1 \<and> count_ev is_close es = 1 \<and>
      dump_times (before_first is_open es) = [] \<and>
      dump_times (after_first is_close es) = [])"

text \<open>Where the trace-enable switch sits among the setup calls: after the model is
  constructed; before the recorder is created, bound and opened.\<close>

definition trace_on_placement :: "event list \<Rightarrow> bool" where
  "trace_on_placement es =
     (precedes is_new_model is_trace_on es \<and>
      precedes is_trace_on is_new_recorder es \<and>
      precedes is_trace_on is_bind es \<and>
      precedes is_trace_on is_open es)"

text \<open>The number of loop iterations of a run is the number of its \<open>eval()\<close> calls: the
  loop body is the only place that evaluates the model, once per iteration.\<close>

definition iterations :: "event list \<Rightarrow> nat" where
  "iterations es = count_ev (\<lambda>e. e = Eval) es"

text \<open>
  The conversion of a C++ \<open>int\<close> to the 64-bit unsigned argument of the recorder's
  \<open>dump\<close>: the value modulo \<open>2 ^ 64\<close>.
\<close>

definition to_u64 :: "int \<Rightarrow> int" where
  "to_u64 i = i mod 2 ^ 64"


section \<open>Variant A: \<open>P_S_FIFO/dv/tb_fifo.cpp\<close>\<close>

text \<open>
  The state of \<open>main\<close>: the context's time counter, the model behind \<open>top\<close> (its
  circuit state together with the completion flag that \<open>$finish\<close> sets in the
  context) and the calls made so far. The model is a parameter: \<open>ev\<close> is its
  \<open>eval()\<close>, which may read the context's time, and \<open>got\<close> is the \<open>gotFinish()\<close>
  query. The time counter belongs to the simulation library; it starts at 0 and
  \<open>timeInc\<close> adds to it. Its declaration is not part of the sources; it is taken as
  an integer counter without an upper limit, so nothing below speaks about a counter
  that wraps around.
\<close>

record 'm tb_fifo =
  sim_time :: nat
  fifo_top :: 'm
  fifo_calls :: "event list"

definition setupA :: "string list \<Rightarrow> 'm \<Rightarrow> 'm tb_fifo" where
  "setupA args m0 =
     \<lparr> sim_time = 0, fifo_top = m0,
       fifo_calls = [NewContext, CommandArgs args, NewModel, TraceEverOn True,
                     NewRecorder, Trace 99, Open ''fifo_waveform.vcd''] \<rparr>"

definition bodyA :: "(nat \<Rightarrow> 'm \<Rightarrow> 'm) \<Rightarrow> 'm tb_fifo \<Rightarrow> 'm tb_fifo" where
  "bodyA ev s =
     (let s1 = s\<lparr> sim_time := sim_time s + 1, fifo_calls := fifo_calls s @ [TimeInc 1] \<rparr>;
          s2 = s1\<lparr> fifo_top := ev (sim_time s1) (fifo_top s1),
                    fifo_calls := fifo_calls s1 @ [Eval] \<rparr>;
          s3 = s2\<lparr> fifo_calls := fifo_calls s2 @ [Dump (int (sim_time s2))] \<rparr>
      in s3)"

partial_function (option) loopA ::
  "(nat \<Rightarrow> 'm \<Rightarrow> 'm) \<Rightarrow> ('m \<Rightarrow> bool) \<Rightarrow> 'm tb_fifo \<Rightarrow> 'm tb_fifo option" where
  "loopA ev got s = (if \<not> got (fifo_top s) then loopA ev got (bodyA ev s) else Some s)"

definition cleanupA :: "'m tb_fifo \<Rightarrow> 'm tb_fifo" where
  "cleanupA s =
     s\<lparr> fifo_calls := fifo_calls s @
          [Close,
           Cout (Str ''--- Simulation Finished ---''), Cout Endl,
           Cout (Str ''Waveform saved to: fifo_waveform.vcd''), Cout Endl,
           DeleteModel, DeleteContext] \<rparr>"

text \<open>
  \<open>main\<close> of Variant A: \<open>None\<close> when the loop never ends, otherwise the exit status and
  the final state. The two owning pointers release the model and the context when
  \<open>main\<close> returns.
\<close>

definition mainA ::
  "string list \<Rightarrow> (nat \<Rightarrow> 'm \<Rightarrow> 'm) \<Rightarrow> ('m \<Rightarrow> bool) \<Rightarrow> 'm \<Rightarrow> (int \<times> 'm tb_fifo) option" where
  "mainA args ev got m0 =
     (case loopA ev got (setupA args m0) of
        None \<Rightarrow> None
      | Some s \<Rightarrow> Some (0, cleanupA s))"

text \<open>The calls of a whole run of Variant A, when it ends.\<close>

definition callsA ::
  "string list \<Rightarrow> (nat \<Rightarrow> 'm \<Rightarrow> 'm) \<Rightarrow> ('m \<Rightarrow> bool) \<Rightarrow> 'm \<Rightarrow> event list option" where
  "callsA args ev got m0 = map_option (\<lambda>r. fifo_calls (snd r)) (mainA args ev got m0)"


section \<open>Variant B: \<open>hello_verilator/dv/sim_main.cpp\<close>\<close>

text \<open>
  The state of \<open>main\<close>: the clock input \<open>top->clk\<close> (its logical value), the model
  behind \<open>top\<close> (circuit state and the global completion flag), the local counter
  \<open>time\<close> and the calls made so far. \<open>ev\<close> is the model's \<open>eval()\<close>, which reads the
  clock input and does not write it; \<open>got\<close> is \<open>Verilated::gotFinish()\<close>. The clock
  value the model is constructed with is the parameter \<open>clk0\<close>. The counter is a C++
  \<open>int\<close>; it is an integer here, and \<open>bodyB_time_range\<close> below shows that it never
  leaves the range of a 32-bit \<open>int\<close>.
\<close>

record 'm tb_top =
  clk :: bool
  top_model :: 'm
  time :: int
  top_calls :: "event list"

definition setupB :: "string list \<Rightarrow> bool \<Rightarrow> 'm \<Rightarrow> 'm tb_top" where
  "setupB args clk0 m0 =
     \<lparr> clk = clk0, top_model = m0, time = 0,
       top_calls = [CommandArgs args, NewModel, TraceEverOn True,
                    NewRecorder, Trace 99, Open ''waveform.vcd''] \<rparr>"

definition bodyB :: "(bool \<Rightarrow> 'm \<Rightarrow> 'm) \<Rightarrow> 'm tb_top \<Rightarrow> 'm tb_top" where
  "bodyB ev s =
     (let s1 = s\<lparr> clk := \<not> clk s, top_calls := top_calls s @ [SetClk (\<not> clk s)] \<rparr>;
          s2 = s1\<lparr> top_model := ev (clk s1) (top_model s1),
                    top_calls := top_calls s1 @ [Eval] \<rparr>;
          s3 = s2\<lparr> top_calls := top_calls s2 @ [Dump (to_u64 (time s2))] \<rparr>;
          s4 = s3\<lparr> time := time s3 + 1 \<rparr>
      in s4)"

function loopB :: "(bool \<Rightarrow> 'm \<Rightarrow> 'm) \<Rightarrow> ('m \<Rightarrow> bool) \<Rightarrow> 'm tb_top \<Rightarrow> 'm tb_top" where
  "loopB ev got s =
     (if \<not> got (top_model s) \<and> time s < 1000 then loopB ev got (bodyB ev s) else s)"
  by pat_completeness auto
termination
  by (relation "measure (\<lambda>(ev, got, s). nat (1000 - time s))") (auto simp: bodyB_def)

definition cleanupB :: "'m tb_top \<Rightarrow> 'm tb_top" where
  "cleanupB s =
     s\<lparr> top_calls := top_calls s @
          [Close, DeleteModel,
           Cout (Str ''Simulation finished at time ''), Cout (Num (time s)), Cout Endl] \<rparr>"

definition mainB ::
  "string list \<Rightarrow> (bool \<Rightarrow> 'm \<Rightarrow> 'm) \<Rightarrow> ('m \<Rightarrow> bool) \<Rightarrow> bool \<Rightarrow> 'm \<Rightarrow> int \<times> 'm tb_top" where
  "mainB args ev got clk0 m0 = (0, cleanupB (loopB ev got (setupB args clk0 m0)))"


text \<open>The calls of a whole run of Variant B.\<close>

definition callsB ::
  "string list \<Rightarrow> (bool \<Rightarrow> 'm \<Rightarrow> 'm) \<Rightarrow> ('m \<Rightarrow> bool) \<Rightarrow> bool \<Rightarrow> 'm \<Rightarrow> event list" where
  "callsB args ev got clk0 m0 = top_calls (snd (mainB args ev got clk0 m0))"


section \<open>Auxiliary definitions: the shape of a run's call list\<close>

text \<open>The calls of iteration \<open>k\<close> (counted from 0) of each loop, for a loop entered at
  time \<open>t\<close> (and, in Variant B, with clock value \<open>c\<close>).\<close>

definition iter_callsA :: "nat \<Rightarrow> nat \<Rightarrow> event list" where
  "iter_callsA t k = [TimeInc 1, Eval, Dump (int (t + k + 1))]"

definition iter_callsB :: "bool \<Rightarrow> int \<Rightarrow> nat \<Rightarrow> event list" where
  "iter_callsB c t k = [SetClk (c = odd k), Eval, Dump (to_u64 (t + int k))]"

definition setup_callsA :: "string list \<Rightarrow> event list" where
  "setup_callsA args = [NewContext, CommandArgs args, NewModel, TraceEverOn True,
                        NewRecorder, Trace 99, Open ''fifo_waveform.vcd'']"

definition final_callsA :: "event list" where
  "final_callsA = [Close,
           Cout (Str ''--- Simulation Finished ---''), Cout Endl,
           Cout (Str ''Waveform saved to: fifo_waveform.vcd''), Cout Endl,
           DeleteModel, DeleteContext]"

definition setup_callsB :: "string list \<Rightarrow> event list" where
  "setup_callsB args = [CommandArgs args, NewModel, TraceEverOn True,
                        NewRecorder, Trace 99, Open ''waveform.vcd'']"

definition final_callsB :: "int \<Rightarrow> event list" where
  "final_callsB t = [Close, DeleteModel,
           Cout (Str ''Simulation finished at time ''), Cout (Num t), Cout Endl]"


section \<open>Lists of calls\<close>

lemma dump_times_append: "dump_times (xs @ ys) = dump_times xs @ dump_times ys"
  by (induction xs rule: dump_times.induct) simp_all

lemma clk_values_append: "clk_values (xs @ ys) = clk_values xs @ clk_values ys"
  by (induction xs rule: clk_values.induct) simp_all

lemma printed_append: "printed (xs @ ys) = printed xs @ printed ys"
  by (induction xs rule: printed.induct) simp_all

lemma count_ev_append: "count_ev P (xs @ ys) = count_ev P xs + count_ev P ys"
  by (simp add: count_ev_def)

lemma to_u64_id: "0 \<le> i \<Longrightarrow> i < 2 ^ 64 \<Longrightarrow> to_u64 i = i"
  by (simp add: to_u64_def)

lemma sorted_times: "sorted_wrt (<) (map int [a..<b])"
  by (simp add: sorted_wrt_map)

lemma lifecycle_shape:
  assumes L: "\<And>e. e \<in> set L \<Longrightarrow> \<not> is_open e \<and> \<not> is_close e"
    and pre: "filter is_open pre = []" "filter is_close pre = []" "dump_times pre = []"
    and post: "filter is_open post = []" "filter is_close post = []" "dump_times post = []"
  shows "recorder_lifecycle (pre @ Open p # L @ Close # post)"
proof -
  have fo: "filter is_open L = []" and fc: "filter is_close L = []"
    using L by (auto simp add: filter_empty_conv)
  have npre: "\<And>e. e \<in> set pre \<Longrightarrow> \<not> is_open e \<and> \<not> is_close e"
    using pre(1,2) by (auto simp add: filter_empty_conv)
  have a: "count_ev is_open (pre @ Open p # L @ Close # post) = 1"
    by (simp add: count_ev_def fo pre post)
  have b: "count_ev is_close (pre @ Open p # L @ Close # post) = 1"
    by (simp add: count_ev_def fc pre post)
  have "before_first is_open (pre @ Open p # L @ Close # post) = pre"
    unfolding before_first_def using npre by (simp add: takeWhile_append2)
  then have c: "dump_times (before_first is_open (pre @ Open p # L @ Close # post)) = []"
    by (simp add: pre)
  have "dropWhile (\<lambda>e. \<not> is_close e) ((pre @ Open p # L) @ Close # post) = Close # post"
    using npre L by (subst dropWhile_append2) auto
  then have "after_first is_close (pre @ Open p # L @ Close # post) = post"
    by (simp add: after_first_def)
  then have d: "dump_times (after_first is_close (pre @ Open p # L @ Close # post)) = []"
    by (simp add: post)
  from a b c d show ?thesis by (simp add: recorder_lifecycle_def)
qed


section \<open>The loop of Variant A\<close>

lemma bodyA_fields:
  "sim_time (bodyA ev s) = sim_time s + 1"
  "fifo_top (bodyA ev s) = ev (sim_time s + 1) (fifo_top s)"
  "fifo_calls (bodyA ev s) = fifo_calls s @ [TimeInc 1, Eval, Dump (int (sim_time s + 1))]"
  by (simp_all add: bodyA_def Let_def)

lemma iterA_time: "sim_time ((bodyA ev ^^ n) s) = sim_time s + n"
  by (induction n) (simp_all add: bodyA_fields)

lemma iterA_calls:
  "fifo_calls ((bodyA ev ^^ n) s) =
     fifo_calls s @ concat (map (iter_callsA (sim_time s)) [0..<n])"
  by (induction n) (auto simp add: bodyA_fields iterA_time iter_callsA_def)

text \<open>The loop returns the state after \<open>n\<close> bodies when the flag is first set after
  \<open>n\<close> bodies.\<close>

lemma loopA_iter:
  "\<forall>k<n. \<not> got (fifo_top ((bodyA ev ^^ k) s)) \<Longrightarrow>
   got (fifo_top ((bodyA ev ^^ n) s)) \<Longrightarrow>
   loopA ev got s = Some ((bodyA ev ^^ n) s)"
proof (induction n arbitrary: s)
  case 0
  then show ?case by (subst loopA.simps) auto
next
  case (Suc n)
  from Suc.prems(1) have c0: "\<not> got (fifo_top s)" by force
  have "loopA ev got (bodyA ev s) = Some ((bodyA ev ^^ n) (bodyA ev s))"
  proof (rule Suc.IH)
    show "\<forall>k<n. \<not> got (fifo_top ((bodyA ev ^^ k) (bodyA ev s)))"
      using Suc.prems(1) by (metis Suc_less_eq funpow_Suc_right o_apply)
    show "got (fifo_top ((bodyA ev ^^ n) (bodyA ev s)))"
      using Suc.prems(2) by (simp add: funpow_swap1)
  qed
  with c0 show ?case by (subst loopA.simps) (simp add: funpow_swap1)
qed

text \<open>Conversely, a loop that returns has run some number \<open>n\<close> of bodies, the flag being
  clear before each of them and set at the end.\<close>

lemma loopA_Some:
  assumes "loopA ev got s = Some t"
  shows "\<exists>n. t = (bodyA ev ^^ n) s \<and> got (fifo_top t) \<and>
             (\<forall>k<n. \<not> got (fifo_top ((bodyA ev ^^ k) s)))"
proof -
  let ?P = "\<lambda>ev got s t. \<exists>n. t = (bodyA ev ^^ n) s \<and> got (fifo_top t) \<and>
             (\<forall>k<n. \<not> got (fifo_top ((bodyA ev ^^ k) s)))"
  have "?P ev got s t"
  proof (rule loopA.raw_induct[where P = ?P, OF _ assms])
    fix loopA' :: "(nat \<Rightarrow> 'a \<Rightarrow> 'a) \<Rightarrow> ('a \<Rightarrow> bool) \<Rightarrow> 'a tb_fifo \<Rightarrow> 'a tb_fifo option"
    fix ev got s t
    assume IH: "\<And>ev got s y. loopA' ev got s = Some y \<Longrightarrow> ?P ev got s y"
      and eq: "(if \<not> got (fifo_top s) then loopA' ev got (bodyA ev s) else Some s) = Some t"
    show "?P ev got s t"
    proof (cases "got (fifo_top s)")
      case True
      with eq have "t = s" by simp
      with True show ?thesis by (intro exI[of _ 0]) simp
    next
      case False
      with eq have "loopA' ev got (bodyA ev s) = Some t" by simp
      from IH[OF this] obtain n where n: "t = (bodyA ev ^^ n) (bodyA ev s)" "got (fifo_top t)"
        "\<forall>k<n. \<not> got (fifo_top ((bodyA ev ^^ k) (bodyA ev s)))" by blast
      have "\<forall>k<Suc n. \<not> got (fifo_top ((bodyA ev ^^ k) s))"
      proof (intro allI impI)
        fix k assume "k < Suc n"
        show "\<not> got (fifo_top ((bodyA ev ^^ k) s))"
        proof (cases k)
          case 0
          with False show ?thesis by simp
        next
          case (Suc j)
          with \<open>k < Suc n\<close> have "j < n" by simp
          with n(3) Suc show ?thesis by (simp add: funpow_swap1)
        qed
      qed
      moreover have "t = (bodyA ev ^^ Suc n) s" using n(1) by (simp add: funpow_swap1)
      ultimately show ?thesis using n(2) by blast
    qed
  qed
  then show ?thesis .
qed

lemma loopA_None:
  assumes "\<forall>k. \<not> got (fifo_top ((bodyA ev ^^ k) s))"
  shows "loopA ev got s = None"
proof (rule ccontr)
  assume "loopA ev got s \<noteq> None"
  then obtain t where "loopA ev got s = Some t" by auto
  from loopA_Some[OF this] assms show False by auto
qed

lemma setupA_fields:
  "sim_time (setupA args m0) = 0"
  "fifo_top (setupA args m0) = m0"
  "fifo_calls (setupA args m0) = setup_callsA args"
  by (simp_all add: setupA_def setup_callsA_def)

lemma cleanupA_fields:
  "sim_time (cleanupA s) = sim_time s"
  "fifo_top (cleanupA s) = fifo_top s"
  "fifo_calls (cleanupA s) = fifo_calls s @ final_callsA"
  by (simp_all add: cleanupA_def final_callsA_def)

lemma mainA_shape:
  assumes "mainA args ev got m0 = Some (st, s)"
  shows "\<exists>n. st = 0 \<and> s = cleanupA ((bodyA ev ^^ n) (setupA args m0)) \<and>
             got (fifo_top ((bodyA ev ^^ n) (setupA args m0))) \<and>
             (\<forall>k<n. \<not> got (fifo_top ((bodyA ev ^^ k) (setupA args m0))))"
proof -
  from assms obtain t where t: "loopA ev got (setupA args m0) = Some t"
    and r: "st = 0" "s = cleanupA t"
    by (auto simp add: mainA_def split: option.splits)
  from loopA_Some[OF t] r show ?thesis by blast
qed

lemma mainA_None_iff:
  "(mainA args ev got m0 = None) = (\<forall>k. \<not> got (fifo_top ((bodyA ev ^^ k) (setupA args m0))))"
proof
  assume n: "mainA args ev got m0 = None"
  show "\<forall>k. \<not> got (fifo_top ((bodyA ev ^^ k) (setupA args m0)))"
  proof (rule ccontr)
    assume "\<not> (\<forall>k. \<not> got (fifo_top ((bodyA ev ^^ k) (setupA args m0))))"
    then have ex: "\<exists>k. got (fifo_top ((bodyA ev ^^ k) (setupA args m0)))" by simp
    define j where "j = (LEAST k. got (fifo_top ((bodyA ev ^^ k) (setupA args m0))))"
    have a: "got (fifo_top ((bodyA ev ^^ j) (setupA args m0)))"
      unfolding j_def using ex by (rule LeastI_ex)
    have b: "\<forall>k<j. \<not> got (fifo_top ((bodyA ev ^^ k) (setupA args m0)))"
      unfolding j_def using not_less_Least by blast
    from loopA_iter[OF b a] n show False by (simp add: mainA_def)
  qed
next
  assume "\<forall>k. \<not> got (fifo_top ((bodyA ev ^^ k) (setupA args m0)))"
  then have "loopA ev got (setupA args m0) = None" by (rule loopA_None)
  then show "mainA args ev got m0 = None" by (simp add: mainA_def)
qed

lemma mainA_calls:
  "fifo_calls (cleanupA ((bodyA ev ^^ n) (setupA args m0))) =
     setup_callsA args @ concat (map (iter_callsA 0) [0..<n]) @ final_callsA"
  by (simp add: cleanupA_fields iterA_calls setupA_fields)

lemma dump_times_iterA:
  "dump_times (concat (map (iter_callsA 0) [0..<n])) = map int [1..<Suc n]"
  by (induction n) (simp_all add: dump_times_append iter_callsA_def)

lemma count_eval_iterA: "count_ev (\<lambda>e. e = Eval) (concat (map (iter_callsA t) [0..<n])) = n"
  by (induction n) (simp_all add: count_ev_def iter_callsA_def)

lemma iter_callsA_set:
  "e \<in> set (concat (map (iter_callsA t) [0..<n])) \<Longrightarrow> e = TimeInc 1 \<or> e = Eval \<or> is_dump e"
  by (auto simp add: iter_callsA_def split: if_splits)

lemma callsA_shape:
  assumes "callsA args ev got m0 = Some es"
  shows "\<exists>n. es = setup_callsA args @ concat (map (iter_callsA 0) [0..<n]) @ final_callsA"
proof -
  from assms obtain st s' where r: "mainA args ev got m0 = Some (st, s')" and e: "es = fifo_calls s'"
    by (auto simp add: callsA_def)
  from mainA_shape[OF r] obtain j where "s' = cleanupA ((bodyA ev ^^ j) (setupA args m0))"
    by blast
  with e have "es = setup_callsA args @ concat (map (iter_callsA 0) [0..<j]) @ final_callsA"
    by (simp add: mainA_calls)
  then show ?thesis by blast
qed

lemma dump_times_prefixA:
  "dump_times (fifo_calls ((bodyA ev ^^ n) (setupA args m0))) = map int [1..<Suc n]"
  by (simp add: iterA_calls setupA_fields dump_times_append dump_times_iterA setup_callsA_def
        del: upt_Suc)

lemma callsA_dump_times:
  assumes "\<forall>k<n. \<not> got (fifo_top ((bodyA ev ^^ k) (setupA args m0)))"
    and "got (fifo_top ((bodyA ev ^^ n) (setupA args m0)))"
  shows "map_option dump_times (callsA args ev got m0) = Some (map int [1..<Suc n])"
proof -
  from loopA_iter[OF assms]
  have "callsA args ev got m0 =
          Some (setup_callsA args @ concat (map (iter_callsA 0) [0..<n]) @ final_callsA)"
    by (simp add: callsA_def mainA_def mainA_calls)
  then show ?thesis
    by (simp add: dump_times_append dump_times_iterA setup_callsA_def final_callsA_def
        del: upt_Suc)
qed

lemma lifecycle_A:
  "recorder_lifecycle (setup_callsA args @ concat (map (iter_callsA t) [0..<n]) @ final_callsA)"
proof -
  have "recorder_lifecycle
          ([NewContext, CommandArgs args, NewModel, TraceEverOn True, NewRecorder, Trace 99] @
           Open ''fifo_waveform.vcd'' # concat (map (iter_callsA t) [0..<n]) @
           Close # [Cout (Str ''--- Simulation Finished ---''), Cout Endl,
                    Cout (Str ''Waveform saved to: fifo_waveform.vcd''), Cout Endl,
                    DeleteModel, DeleteContext])"
  proof (rule lifecycle_shape)
    fix e assume "e \<in> set (concat (map (iter_callsA t) [0..<n]))"
    from iter_callsA_set[OF this] show "\<not> is_open e \<and> \<not> is_close e" by (cases e) auto
  qed simp_all
  then show ?thesis by (simp add: setup_callsA_def final_callsA_def)
qed

lemma placement_prefix_A: "trace_on_placement (setup_callsA args @ es)"
  by (simp add: trace_on_placement_def precedes_def setup_callsA_def)


section \<open>The loop of Variant B\<close>

declare loopB.simps [simp del]

lemma bodyB_fields:
  "clk (bodyB ev s) = (\<not> clk s)"
  "time (bodyB ev s) = time s + 1"
  "top_model (bodyB ev s) = ev (\<not> clk s) (top_model s)"
  "top_calls (bodyB ev s) = top_calls s @ [SetClk (\<not> clk s), Eval, Dump (to_u64 (time s))]"
  by (simp_all add: bodyB_def Let_def)

text \<open>The counter stays far inside the range of a 32-bit \<open>int\<close>: the body runs only
  below 1000, so \<open>time++\<close> never overflows.\<close>

lemma bodyB_time_range: "time s < 1000 \<Longrightarrow> time (bodyB ev s) \<le> 1000 \<and> time (bodyB ev s) < 2 ^ 31"
  by (simp add: bodyB_fields)

lemma iterB_time: "time ((bodyB ev ^^ n) s) = time s + int n"
  by (induction n) (simp_all add: bodyB_fields)

lemma iterB_clk: "clk ((bodyB ev ^^ n) s) = (clk s \<noteq> odd n)"
  by (induction n) (auto simp add: bodyB_fields)

lemma iterB_calls:
  "top_calls ((bodyB ev ^^ n) s) =
     top_calls s @ concat (map (iter_callsB (clk s) (time s)) [0..<n])"
  by (induction n) (auto simp add: bodyB_fields iterB_time iterB_clk iter_callsB_def)

text \<open>The loop returns the state after \<open>n\<close> bodies, where \<open>n\<close> is the first iteration
  count at which the loop condition is false.\<close>

lemma loopB_iter:
  "\<forall>k<n. \<not> got (top_model ((bodyB ev ^^ k) s)) \<and> time ((bodyB ev ^^ k) s) < 1000 \<Longrightarrow>
   got (top_model ((bodyB ev ^^ n) s)) \<or> \<not> time ((bodyB ev ^^ n) s) < 1000 \<Longrightarrow>
   loopB ev got s = (bodyB ev ^^ n) s"
proof (induction n arbitrary: s)
  case 0
  then have "\<not> (\<not> got (top_model s) \<and> time s < 1000)" by auto
  then show ?case by (subst loopB.simps) auto
next
  case (Suc n)
  from Suc.prems(1) have c0: "\<not> got (top_model s) \<and> time s < 1000" by force
  have "loopB ev got (bodyB ev s) = (bodyB ev ^^ n) (bodyB ev s)"
  proof (rule Suc.IH)
    show "\<forall>k<n. \<not> got (top_model ((bodyB ev ^^ k) (bodyB ev s))) \<and>
                 time ((bodyB ev ^^ k) (bodyB ev s)) < 1000"
      using Suc.prems(1) by (metis Suc_less_eq funpow_Suc_right o_apply)
    show "got (top_model ((bodyB ev ^^ n) (bodyB ev s))) \<or>
          \<not> time ((bodyB ev ^^ n) (bodyB ev s)) < 1000"
      using Suc.prems(2) by (simp add: funpow_swap1)
  qed
  with c0 show ?case by (subst loopB.simps) (simp add: funpow_swap1)
qed

lemma loopB_ex:
  "\<exists>n. loopB ev got s = (bodyB ev ^^ n) s \<and>
       (\<forall>k<n. \<not> got (top_model ((bodyB ev ^^ k) s)) \<and> time ((bodyB ev ^^ k) s) < 1000) \<and>
       (got (top_model ((bodyB ev ^^ n) s)) \<or> \<not> time ((bodyB ev ^^ n) s) < 1000)"
proof (induction ev got s rule: loopB.induct)
  case (1 ev got s)
  show ?case
  proof (cases "\<not> got (top_model s) \<and> time s < 1000")
    case False
    then have "loopB ev got s = (bodyB ev ^^ 0) s" by (subst loopB.simps) auto
    with False show ?thesis by (intro exI[of _ 0]) auto
  next
    case True
    from 1[OF True] obtain n where n:
      "loopB ev got (bodyB ev s) = (bodyB ev ^^ n) (bodyB ev s)"
      "\<forall>k<n. \<not> got (top_model ((bodyB ev ^^ k) (bodyB ev s))) \<and>
             time ((bodyB ev ^^ k) (bodyB ev s)) < 1000"
      "got (top_model ((bodyB ev ^^ n) (bodyB ev s))) \<or>
       \<not> time ((bodyB ev ^^ n) (bodyB ev s)) < 1000"
      by blast
    have a: "loopB ev got s = (bodyB ev ^^ Suc n) s"
      using True n(1) by (subst loopB.simps) (simp add: funpow_swap1)
    have b: "\<forall>k<Suc n. \<not> got (top_model ((bodyB ev ^^ k) s)) \<and> time ((bodyB ev ^^ k) s) < 1000"
    proof (intro allI impI)
      fix k assume "k < Suc n"
      show "\<not> got (top_model ((bodyB ev ^^ k) s)) \<and> time ((bodyB ev ^^ k) s) < 1000"
      proof (cases k)
        case 0
        with True show ?thesis by simp
      next
        case (Suc j)
        with \<open>k < Suc n\<close> have "j < n" by simp
        with n(2) Suc show ?thesis by (simp add: funpow_swap1)
      qed
    qed
    have c: "got (top_model ((bodyB ev ^^ Suc n) s)) \<or> \<not> time ((bodyB ev ^^ Suc n) s) < 1000"
      using n(3) by (simp add: funpow_swap1)
    from a b c show ?thesis by blast
  qed
qed

lemma setupB_fields:
  "clk (setupB args clk0 m0) = clk0"
  "time (setupB args clk0 m0) = 0"
  "top_model (setupB args clk0 m0) = m0"
  "top_calls (setupB args clk0 m0) = setup_callsB args"
  by (simp_all add: setupB_def setup_callsB_def)

lemma cleanupB_fields:
  "clk (cleanupB s) = clk s"
  "time (cleanupB s) = time s"
  "top_model (cleanupB s) = top_model s"
  "top_calls (cleanupB s) = top_calls s @ final_callsB (time s)"
  by (simp_all add: cleanupB_def final_callsB_def)

text \<open>Every run of Variant B: \<open>n \<le> 1000\<close> bodies, ended by the flag or by the bound.\<close>

lemma mainB_shape:
  "\<exists>n\<le>1000.
     mainB args ev got clk0 m0 = (0, cleanupB ((bodyB ev ^^ n) (setupB args clk0 m0))) \<and>
     (\<forall>k<n. \<not> got (top_model ((bodyB ev ^^ k) (setupB args clk0 m0)))) \<and>
     (got (top_model ((bodyB ev ^^ n) (setupB args clk0 m0))) \<or> n = 1000)"
proof -
  let ?s0 = "setupB args clk0 m0"
  from loopB_ex[of ev got ?s0] obtain n where n:
    "loopB ev got ?s0 = (bodyB ev ^^ n) ?s0"
    "\<forall>k<n. \<not> got (top_model ((bodyB ev ^^ k) ?s0)) \<and> time ((bodyB ev ^^ k) ?s0) < 1000"
    "got (top_model ((bodyB ev ^^ n) ?s0)) \<or> \<not> time ((bodyB ev ^^ n) ?s0) < 1000"
    by blast
  have le: "n \<le> 1000"
  proof (rule ccontr)
    assume "\<not> n \<le> 1000"
    then have "1000 < n" by simp
    with n(2) have "time ((bodyB ev ^^ 1000) ?s0) < 1000" by blast
    then show False by (simp add: iterB_time setupB_fields)
  qed
  from n(3) le have "got (top_model ((bodyB ev ^^ n) ?s0)) \<or> n = 1000"
    by (auto simp add: iterB_time setupB_fields)
  with n(1,2) le show ?thesis unfolding mainB_def by (intro exI[of _ n]) simp
qed

lemma mainB_calls:
  "top_calls (cleanupB ((bodyB ev ^^ n) (setupB args clk0 m0))) =
     setup_callsB args @ concat (map (iter_callsB clk0 0) [0..<n]) @ final_callsB (int n)"
  by (simp add: cleanupB_fields iterB_calls iterB_time setupB_fields)

lemma dump_times_iterB:
  "n \<le> 1000 \<Longrightarrow> dump_times (concat (map (iter_callsB c 0) [0..<n])) = map int [0..<n]"
proof (induction n)
  case 0
  then show ?case by simp
next
  case (Suc n)
  then have "to_u64 (int n) = int n" by (intro to_u64_id) simp_all
  with Suc show ?case by (simp add: dump_times_append iter_callsB_def)
qed

lemma clk_values_iterB:
  "clk_values (concat (map (iter_callsB c t) [0..<n])) = map (\<lambda>k. c = odd k) [0..<n]"
  by (induction n) (simp_all add: clk_values_append iter_callsB_def)

lemma printed_iterB: "printed (concat (map (iter_callsB c t) [0..<n])) = []"
  by (induction n) (simp_all add: printed_append iter_callsB_def)

lemma count_dump_iterB: "count_ev is_dump (concat (map (iter_callsB c t) [0..<n])) = n"
  by (induction n) (simp_all add: count_ev_def iter_callsB_def)

lemma count_setclk_iterB: "count_ev is_setclk (concat (map (iter_callsB c t) [0..<n])) = n"
  by (induction n) (simp_all add: count_ev_def iter_callsB_def)

lemma count_eval_iterB: "count_ev (\<lambda>e. e = Eval) (concat (map (iter_callsB c t) [0..<n])) = n"
  by (induction n) (simp_all add: count_ev_def iter_callsB_def)

text \<open>The five observations of a run of Variant B with \<open>n\<close> bodies.\<close>

lemma callsB_observed:
  assumes "n \<le> 1000"
    and "mainB args ev got clk0 m0 = (0, cleanupB ((bodyB ev ^^ n) (setupB args clk0 m0)))"
  shows "callsB args ev got clk0 m0 =
           setup_callsB args @ concat (map (iter_callsB clk0 0) [0..<n]) @ final_callsB (int n)"
    and "iterations (callsB args ev got clk0 m0) = n"
    and "dump_times (callsB args ev got clk0 m0) = map int [0..<n]"
    and "printed (callsB args ev got clk0 m0) =
           [Str ''Simulation finished at time '', Num (int n), Endl]"
    and "count_ev is_dump (callsB args ev got clk0 m0) = n"
    and "count_ev is_setclk (callsB args ev got clk0 m0) = n"
    and "clk_values (callsB args ev got clk0 m0) = map (\<lambda>k. clk0 = odd k) [0..<n]"
    and "time (snd (mainB args ev got clk0 m0)) = int n"
proof -
  let ?es = "callsB args ev got clk0 m0"
  show es: "?es = setup_callsB args @ concat (map (iter_callsB clk0 0) [0..<n]) @ final_callsB (int n)"
    by (simp add: callsB_def assms(2) mainB_calls)
  show "iterations ?es = n"
    unfolding es iterations_def count_ev_append count_eval_iterB
    by (simp add: count_ev_def setup_callsB_def final_callsB_def)
  show "dump_times ?es = map int [0..<n]"
    unfolding es dump_times_append dump_times_iterB[OF assms(1)]
    by (simp add: setup_callsB_def final_callsB_def)
  show "printed ?es = [Str ''Simulation finished at time '', Num (int n), Endl]"
    unfolding es printed_append printed_iterB
    by (simp add: setup_callsB_def final_callsB_def)
  show "count_ev is_dump ?es = n"
    unfolding es count_ev_append count_dump_iterB
    by (simp add: count_ev_def setup_callsB_def final_callsB_def)
  show "count_ev is_setclk ?es = n"
    unfolding es count_ev_append count_setclk_iterB
    by (simp add: count_ev_def setup_callsB_def final_callsB_def)
  show "clk_values ?es = map (\<lambda>k. clk0 = odd k) [0..<n]"
    unfolding es clk_values_append clk_values_iterB
    by (simp add: setup_callsB_def final_callsB_def)
  show "time (snd (mainB args ev got clk0 m0)) = int n"
    by (simp add: assms(2) cleanupB_fields iterB_time setupB_fields)
qed

lemma iter_callsB_set:
  "e \<in> set (concat (map (iter_callsB c t) [0..<n])) \<Longrightarrow> is_setclk e \<or> e = Eval \<or> is_dump e"
  by (auto simp add: iter_callsB_def split: if_splits)

lemma callsB_shape:
  "\<exists>n\<le>1000. callsB args ev got clk0 m0 =
      setup_callsB args @ concat (map (iter_callsB clk0 0) [0..<n]) @ final_callsB (int n)"
proof -
  from mainB_shape[of args ev got clk0 m0] obtain n where le: "n \<le> 1000"
    and m: "mainB args ev got clk0 m0 = (0, cleanupB ((bodyB ev ^^ n) (setupB args clk0 m0)))"
    by blast
  from callsB_observed(1)[OF le m] le show ?thesis by blast
qed

lemma lifecycle_B:
  "recorder_lifecycle (setup_callsB args @ concat (map (iter_callsB c t) [0..<n]) @ final_callsB u)"
proof -
  have "recorder_lifecycle
          ([CommandArgs args, NewModel, TraceEverOn True, NewRecorder, Trace 99] @
           Open ''waveform.vcd'' # concat (map (iter_callsB c t) [0..<n]) @
           Close # [DeleteModel, Cout (Str ''Simulation finished at time ''), Cout (Num u), Cout Endl])"
  proof (rule lifecycle_shape)
    fix e assume "e \<in> set (concat (map (iter_callsB c t) [0..<n]))"
    from iter_callsB_set[OF this] show "\<not> is_open e \<and> \<not> is_close e" by (cases e) auto
  qed simp_all
  then show ?thesis by (simp add: setup_callsB_def final_callsB_def)
qed

lemma placement_prefix_B: "trace_on_placement (setup_callsB args @ es)"
  by (simp add: trace_on_placement_def precedes_def setup_callsB_def)


section \<open>Example models\<close>

text \<open>A model that counts its evaluations, one that copies the context's time, and
  one that records the clock values it is given.\<close>

lemma iterA_counter: "fifo_top ((bodyA (\<lambda>t m. Suc m) ^^ k) s) = fifo_top s + k"
  by (induction k) (simp_all add: bodyA_fields)

lemma iterA_reader:
  "fifo_top ((bodyA (\<lambda>t m. t) ^^ k) s) = (if k = 0 then fifo_top s else sim_time s + k)"
  by (induction k) (simp_all add: bodyA_fields iterA_time)

lemma iterB_counter: "top_model ((bodyB (\<lambda>c m. Suc m) ^^ k) s) = top_model s + k"
  by (induction k) (simp_all add: bodyB_fields)

lemma iterB_recorder:
  "length (top_model ((bodyB (\<lambda>c m. c # m) ^^ k) s)) = length (top_model s) + k"
  by (induction k) (simp_all add: bodyB_fields)

lemma ex_callsA:
  "callsA [] (\<lambda>t m. Suc m) (\<lambda>m. 2 \<le> m) (0::nat) =
     Some [NewContext, CommandArgs [], NewModel, TraceEverOn True, NewRecorder, Trace 99,
           Open ''fifo_waveform.vcd'', TimeInc 1, Eval, Dump 1, TimeInc 1, Eval, Dump 2,
           Close, Cout (Str ''--- Simulation Finished ---''), Cout Endl,
           Cout (Str ''Waveform saved to: fifo_waveform.vcd''), Cout Endl,
           DeleteModel, DeleteContext]"
  by (simp add: callsA_def mainA_def loopA.simps setupA_def bodyA_def cleanupA_def)

lemma ex_clk_values:
  "clk_values (callsB [] (\<lambda>c m. Suc m) (\<lambda>m. 3 \<le> m) False (0::nat)) = [True, False, True]"
  by (simp add: callsB_def mainB_def loopB.simps setupB_def bodyB_def cleanupB_def to_u64_def)


section \<open>Variant A: dump times\<close>

text \<open>
  C1. In every run of Variant A the times passed to \<open>dump\<close> are \<open>1, 2, 3, ...\<close>: a loop
  body first advances the context time by exactly 1 and then dumps at the new time, so
  after \<open>n\<close> bodies the dumped times are exactly \<open>1, ..., n\<close> and iteration \<open>k\<close> dumps at
  time \<open>k\<close>; in a run that ends, the dumped times are \<open>1, ...,\<close> the number of
  iterations, a strictly increasing sequence.
\<close>

theorem C1_dump_times_A:
  "fifo_calls (bodyA ev s) = fifo_calls s @ [TimeInc 1, Eval, Dump (int (sim_time s) + 1)] \<and>
   dump_times (fifo_calls ((bodyA ev ^^ n) (setupA args m0))) = map int [1..<Suc n] \<and>
   (\<forall>k. 1 \<le> k \<and> k \<le> n \<longrightarrow>
        dump_times (fifo_calls ((bodyA ev ^^ n) (setupA args m0))) ! (k - 1) = int k) \<and>
   sorted_wrt (<) (dump_times (fifo_calls ((bodyA ev ^^ n) (setupA args m0)))) \<and>
   (callsA args ev got m0 = Some es \<longrightarrow>
      dump_times es = map int [1..<Suc (iterations es)] \<and> sorted_wrt (<) (dump_times es))"
proof -
  have a: "fifo_calls (bodyA ev s) = fifo_calls s @ [TimeInc 1, Eval, Dump (int (sim_time s) + 1)]"
    by (simp add: bodyA_fields)
  have b: "dump_times (fifo_calls ((bodyA ev ^^ n) (setupA args m0))) = map int [1..<Suc n]"
    by (rule dump_times_prefixA)
  have c: "\<forall>k. 1 \<le> k \<and> k \<le> n \<longrightarrow>
        dump_times (fifo_calls ((bodyA ev ^^ n) (setupA args m0))) ! (k - 1) = int k"
    unfolding b by (auto simp del: upt_Suc)
  have c': "sorted_wrt (<) (dump_times (fifo_calls ((bodyA ev ^^ n) (setupA args m0))))"
    unfolding b by (rule sorted_times)
  have d: "dump_times es = map int [1..<Suc (iterations es)] \<and> sorted_wrt (<) (dump_times es)"
    if "callsA args ev got m0 = Some es"
  proof -
    from callsA_shape[OF that] obtain j where
      es: "es = setup_callsA args @ concat (map (iter_callsA 0) [0..<j]) @ final_callsA"
      by blast
    have i: "iterations es = j"
      unfolding es iterations_def count_ev_append count_eval_iterA
      by (simp add: count_ev_def setup_callsA_def final_callsA_def)
    have dt: "dump_times es = map int [1..<Suc j]"
      unfolding es dump_times_append dump_times_iterA
      by (simp add: setup_callsA_def final_callsA_def)
    show ?thesis unfolding i dt using sorted_times by blast
  qed
  from a b c c' d show ?thesis by blast
qed

text \<open>The theorem at a model that finishes in its second evaluation: the run ends, and
  its dumps are at times 1 and 2.\<close>

theorem C1_dump_times_A_witness:
  "callsA [] (\<lambda>t m. Suc m) (\<lambda>m. 2 \<le> m) (0::nat) =
     Some [NewContext, CommandArgs [], NewModel, TraceEverOn True, NewRecorder, Trace 99,
           Open ''fifo_waveform.vcd'', TimeInc 1, Eval, Dump 1, TimeInc 1, Eval, Dump 2,
           Close, Cout (Str ''--- Simulation Finished ---''), Cout Endl,
           Cout (Str ''Waveform saved to: fifo_waveform.vcd''), Cout Endl,
           DeleteModel, DeleteContext] \<and>
   dump_times [NewContext, CommandArgs [], NewModel, TraceEverOn True, NewRecorder, Trace 99,
           Open ''fifo_waveform.vcd'', TimeInc 1, Eval, Dump 1, TimeInc 1, Eval, Dump 2,
           Close, Cout (Str ''--- Simulation Finished ---''), Cout Endl,
           Cout (Str ''Waveform saved to: fifo_waveform.vcd''), Cout Endl,
           DeleteModel, DeleteContext] = [1, 2] \<and>
   dump_times (fifo_calls ((bodyA (\<lambda>t m. Suc m) ^^ 2) (setupA [] (0::nat)))) ! (2 - 1) = 2"
  using C1_dump_times_A[of "\<lambda>t m. Suc m" _ 2 "[]" "0::nat" "\<lambda>m. 2 \<le> m"] ex_callsA
  by simp


section \<open>Variant B: the bound of 1000\<close>

text \<open>
  C2. Every run of Variant B performs at most 1000 loop iterations, and the time it
  reports at the end is at most 1000. If the model does not set its completion flag (the
  first 1000 answers of \<open>gotFinish\<close> are all that the loop can see), the loop runs
  exactly 1000 iterations, the counter reaches 1000, the clock is toggled 1000 times and
  the printed final time is 1000.
\<close>

theorem C2_bound_B:
  "iterations (callsB args ev got clk0 m0) \<le> 1000 \<and>
   time (snd (mainB args ev got clk0 m0)) \<le> 1000 \<and>
   (\<exists>t\<le>1000. printed (callsB args ev got clk0 m0) =
       [Str ''Simulation finished at time '', Num t, Endl]) \<and>
   ((\<forall>k<1000. \<not> got (top_model ((bodyB ev ^^ k) (setupB args clk0 m0)))) \<longrightarrow>
      iterations (callsB args ev got clk0 m0) = 1000 \<and>
      time (snd (mainB args ev got clk0 m0)) = 1000 \<and>
      count_ev is_setclk (callsB args ev got clk0 m0) = 1000 \<and>
      printed (callsB args ev got clk0 m0) =
        [Str ''Simulation finished at time '', Num 1000, Endl])"
proof -
  from mainB_shape[of args ev got clk0 m0] obtain n where le: "n \<le> 1000"
    and m: "mainB args ev got clk0 m0 = (0, cleanupB ((bodyB ev ^^ n) (setupB args clk0 m0)))"
    and stop: "got (top_model ((bodyB ev ^^ n) (setupB args clk0 m0))) \<or> n = 1000"
    by blast
  note obs = callsB_observed[OF le m]
  have a: "iterations (callsB args ev got clk0 m0) \<le> 1000" using le by (simp add: obs(2))
  have b: "time (snd (mainB args ev got clk0 m0)) \<le> 1000" using le by (simp add: obs(8))
  have c: "\<exists>t\<le>1000. printed (callsB args ev got clk0 m0) =
       [Str ''Simulation finished at time '', Num t, Endl]"
    using le by (intro exI[of _ "int n"]) (simp add: obs(4))
  have d: "iterations (callsB args ev got clk0 m0) = 1000 \<and>
      time (snd (mainB args ev got clk0 m0)) = 1000 \<and>
      count_ev is_setclk (callsB args ev got clk0 m0) = 1000 \<and>
      printed (callsB args ev got clk0 m0) =
        [Str ''Simulation finished at time '', Num 1000, Endl]"
    if never: "\<forall>k<1000. \<not> got (top_model ((bodyB ev ^^ k) (setupB args clk0 m0)))"
  proof -
    have "n = 1000"
    proof (rule ccontr)
      assume "n \<noteq> 1000"
      with le have "n < 1000" by simp
      with never stop \<open>n \<noteq> 1000\<close> show False by blast
    qed
    then show ?thesis by (simp add: obs(2,4,6,8))
  qed
  from a b c d show ?thesis by blast
qed

text \<open>The theorem at a model whose flag is never set.\<close>

theorem C2_bound_B_witness:
  "iterations (callsB [] (\<lambda>c m. m) (\<lambda>m. False) False ()) = 1000 \<and>
   time (snd (mainB [] (\<lambda>c m. m) (\<lambda>m. False) False ())) = 1000 \<and>
   count_ev is_setclk (callsB [] (\<lambda>c m. m) (\<lambda>m. False) False ()) = 1000 \<and>
   printed (callsB [] (\<lambda>c m. m) (\<lambda>m. False) False ()) =
        [Str ''Simulation finished at time '', Num 1000, Endl]"
  using C2_bound_B[of "[]" "\<lambda>c m. m" "\<lambda>m. False" False "()"] by simp


section \<open>Variant B: the clock\<close>

text \<open>
  C3. In every run of Variant B the driver assigns \<open>clk\<close> once per loop iteration, and
  each value assigned is the negation of the value assigned in the iteration before:
  no two consecutive assignments give the same value.
\<close>

theorem C3_clock_alternates_B:
  "length (clk_values (callsB args ev got clk0 m0)) = iterations (callsB args ev got clk0 m0) \<and>
   (\<forall>i. Suc i < length (clk_values (callsB args ev got clk0 m0)) \<longrightarrow>
        clk_values (callsB args ev got clk0 m0) ! Suc i =
          (\<not> clk_values (callsB args ev got clk0 m0) ! i))"
proof -
  from mainB_shape[of args ev got clk0 m0] obtain n where le: "n \<le> 1000"
    and m: "mainB args ev got clk0 m0 = (0, cleanupB ((bodyB ev ^^ n) (setupB args clk0 m0)))"
    by blast
  note obs = callsB_observed[OF le m]
  show ?thesis unfolding obs(7) obs(2) by simp
qed

text \<open>The theorem at a model that finishes in its third evaluation: the clock is set to
  1, 0, 1.\<close>

theorem C3_clock_alternates_B_witness:
  "clk_values (callsB [] (\<lambda>c m. Suc m) (\<lambda>m. 3 \<le> m) False (0::nat)) = [True, False, True] \<and>
   Suc 0 < length (clk_values (callsB [] (\<lambda>c m. Suc m) (\<lambda>m. 3 \<le> m) False (0::nat))) \<and>
   clk_values (callsB [] (\<lambda>c m. Suc m) (\<lambda>m. 3 \<le> m) False (0::nat)) ! Suc 0 =
     (\<not> clk_values (callsB [] (\<lambda>c m. Suc m) (\<lambda>m. 3 \<le> m) False (0::nat)) ! 0)"
proof -
  have len: "Suc 0 < length (clk_values (callsB [] (\<lambda>c m. Suc m) (\<lambda>m. 3 \<le> m) False (0::nat)))"
    by (simp add: ex_clk_values)
  with C3_clock_alternates_B[of "[]" "\<lambda>c m. Suc m" "\<lambda>m. 3 \<le> m" False "0::nat"] ex_clk_values
  show ?thesis by blast
qed


section \<open>Variant B: the model finishes at iteration 42\<close>

text \<open>
  C4. In a run of Variant B where the completion flag is still clear after each of the
  first 41 evaluations (and before the first) and is set by the evaluation of iteration
  42, the loop performs exactly 42 iterations, the clock is toggled exactly 42 times and
  the printed final time is 42.
\<close>

theorem C4_finish_at_42_B:
  assumes "\<forall>k<42. \<not> got (top_model ((bodyB ev ^^ k) (setupB args clk0 m0)))"
    and "got (top_model ((bodyB ev ^^ 42) (setupB args clk0 m0)))"
  shows "iterations (callsB args ev got clk0 m0) = 42 \<and>
         count_ev is_setclk (callsB args ev got clk0 m0) = 42 \<and>
         printed (callsB args ev got clk0 m0) =
           [Str ''Simulation finished at time '', Num 42, Endl] \<and>
         time (snd (mainB args ev got clk0 m0)) = 42"
proof -
  let ?s0 = "setupB args clk0 m0"
  have "loopB ev got ?s0 = (bodyB ev ^^ 42) ?s0"
  proof (rule loopB_iter)
    show "\<forall>k<42. \<not> got (top_model ((bodyB ev ^^ k) ?s0)) \<and> time ((bodyB ev ^^ k) ?s0) < 1000"
      using assms(1) by (simp add: iterB_time setupB_fields)
    show "got (top_model ((bodyB ev ^^ 42) ?s0)) \<or> \<not> time ((bodyB ev ^^ 42) ?s0) < 1000"
      using assms(2) by simp
  qed
  then have m: "mainB args ev got clk0 m0 = (0, cleanupB ((bodyB ev ^^ 42) ?s0))"
    by (simp add: mainB_def)
  have le: "(42::nat) \<le> 1000" by simp
  note obs = callsB_observed[OF le m]
  show ?thesis by (simp add: obs(2,4,6,8))
qed

text \<open>The theorem at a model that counts its evaluations and finishes in the 42nd.\<close>

theorem C4_finish_at_42_B_witness:
  "\<not> 42 \<le> top_model ((bodyB (\<lambda>c m. Suc m) ^^ 41) (setupB [] False (0::nat))) \<and>
   42 \<le> top_model ((bodyB (\<lambda>c m. Suc m) ^^ 42) (setupB [] False (0::nat))) \<and>
   iterations (callsB [] (\<lambda>c m. Suc m) (\<lambda>m. 42 \<le> m) False (0::nat)) = 42 \<and>
   count_ev is_setclk (callsB [] (\<lambda>c m. Suc m) (\<lambda>m. 42 \<le> m) False (0::nat)) = 42 \<and>
   printed (callsB [] (\<lambda>c m. Suc m) (\<lambda>m. 42 \<le> m) False (0::nat)) =
           [Str ''Simulation finished at time '', Num 42, Endl]"
proof -
  have a: "\<forall>k<42. \<not> 42 \<le> top_model ((bodyB (\<lambda>c m. Suc m) ^^ k) (setupB [] False (0::nat)))"
    by (simp add: iterB_counter setupB_fields)
  have b: "42 \<le> top_model ((bodyB (\<lambda>c m. Suc m) ^^ 42) (setupB [] False (0::nat)))"
    by (simp add: iterB_counter setupB_fields)
  have c: "\<not> 42 \<le> top_model ((bodyB (\<lambda>c m. Suc m) ^^ 41) (setupB [] False (0::nat)))"
    by (simp add: iterB_counter setupB_fields)
  from C4_finish_at_42_B[of "\<lambda>m. 42 \<le> m" "\<lambda>c m. Suc m" "[]" False 0, OF a b] b c
  show ?thesis by simp
qed


section \<open>Both variants: where tracing is switched on\<close>

text \<open>
  C5, as stated: the trace-enable switch is invoked before the model instance is
  constructed. It fails in both variants: with a model whose flag is set from the start,
  \<open>traceEverOn\<close> does not come before the construction of the model, in Variant B and in
  Variant A.
\<close>

theorem C5_counterexample:
  "\<not> precedes is_trace_on is_new_model (callsB [] (\<lambda>c m. m) (\<lambda>m. True) False ()) \<and>
   map_option (precedes is_trace_on is_new_model) (callsA [] (\<lambda>t m. m) (\<lambda>m. True) ()) = Some False"
  by (simp add: precedes_def callsB_def mainB_def loopB.simps setupB_def cleanupB_def
      callsA_def mainA_def loopA.simps setupA_def cleanupA_def)

text \<open>
  C5, amended. In every run of either variant the trace-enable switch is invoked after
  the model instance is constructed, and before the recorder is created, bound to the
  model and opened. For Variant A this holds of the calls made up to any number of loop
  bodies, and of the whole run when it ends.
\<close>

theorem C5_trace_on_after_model:
  "trace_on_placement (callsB args ev got clk0 m0) \<and>
   trace_on_placement (fifo_calls ((bodyA evA ^^ n) (setupA argsA mA))) \<and>
   (callsA argsA evA gotA mA = Some es \<longrightarrow> trace_on_placement es)"
proof -
  from callsB_shape[of args ev got clk0 m0] have "trace_on_placement (callsB args ev got clk0 m0)"
    using placement_prefix_B by auto
  moreover have "trace_on_placement (fifo_calls ((bodyA evA ^^ n) (setupA argsA mA)))"
    by (simp add: iterA_calls setupA_fields placement_prefix_A)
  moreover have "trace_on_placement es" if "callsA argsA evA gotA mA = Some es"
    using callsA_shape[OF that] placement_prefix_A by auto
  ultimately show ?thesis by blast
qed

text \<open>The amended statement at models that finish in their second evaluation.\<close>

theorem C5_trace_on_after_model_witness:
  "trace_on_placement
     [NewContext, CommandArgs [], NewModel, TraceEverOn True, NewRecorder, Trace 99,
      Open ''fifo_waveform.vcd'', TimeInc 1, Eval, Dump 1, TimeInc 1, Eval, Dump 2,
      Close, Cout (Str ''--- Simulation Finished ---''), Cout Endl,
      Cout (Str ''Waveform saved to: fifo_waveform.vcd''), Cout Endl,
      DeleteModel, DeleteContext] \<and>
   trace_on_placement (callsB [] (\<lambda>c m. Suc m) (\<lambda>m. 2 \<le> m) False (0::nat))"
  using C5_trace_on_after_model[where args = "[]" and ev = "\<lambda>c m. Suc m" and got = "\<lambda>m. 2 \<le> m"
          and ?clk0.0 = False and ?m0.0 = "0::nat" and argsA = "[]" and evA = "\<lambda>t m. Suc m"
          and gotA = "\<lambda>m. 2 \<le> m" and mA = "0::nat"] ex_callsA
  by simp


section \<open>Variant A: termination\<close>

text \<open>
  C6. The loop of Variant A ends only through the model's completion flag: \<open>main\<close> does
  not return exactly when the flag is clear at every check (before the first body and
  after each body), so a model that never sets it makes the loop run forever; and when
  \<open>main\<close> returns, the flag is set.
\<close>

theorem C6_only_flag_ends_A:
  "(mainA args ev got m0 = None) =
     (\<forall>k. \<not> got (fifo_top ((bodyA ev ^^ k) (setupA args m0)))) \<and>
   (mainA args ev got m0 = Some (st, s) \<longrightarrow> got (fifo_top s))"
proof -
  have "got (fifo_top s)" if "mainA args ev got m0 = Some (st, s)"
    using mainA_shape[OF that] by (auto simp add: cleanupA_fields)
  with mainA_None_iff[of args ev got m0] show ?thesis by blast
qed

text \<open>The theorem at a model whose flag is never set: \<open>main\<close> does not return. A model
  that finishes in its second evaluation returns.\<close>

theorem C6_only_flag_ends_A_witness:
  "mainA [] (\<lambda>t m. m) (\<lambda>m. False) () = None \<and>
   mainA [] (\<lambda>t m. Suc m) (\<lambda>m. 2 \<le> m) (0::nat) \<noteq> None"
proof -
  have "mainA [] (\<lambda>t m. m) (\<lambda>m. False) () = None"
    using C6_only_flag_ends_A[of "[]" "\<lambda>t m. m" "\<lambda>m. False" "()"] by simp
  moreover have "mainA [] (\<lambda>t m. Suc m) (\<lambda>m. 2 \<le> m) (0::nat) \<noteq> None"
    using ex_callsA by (auto simp add: callsA_def)
  ultimately show ?thesis by simp
qed


section \<open>Both variants: the recorder's life cycle\<close>

text \<open>
  C7. In every run of either variant that completes, the recorder is opened exactly
  once and closed exactly once, no \<open>dump\<close> comes before the \<open>open\<close>, and no \<open>dump\<close>
  comes after the \<open>close\<close> (so the \<open>close\<close> follows the last \<open>dump\<close>). Every run of
  Variant B completes; a run of Variant A completes when \<open>main\<close> returns.
\<close>

theorem C7_recorder_lifecycle:
  "recorder_lifecycle (callsB args ev got clk0 m0) \<and>
   (callsA argsA evA gotA mA = Some es \<longrightarrow> recorder_lifecycle es)"
proof -
  from callsB_shape[of args ev got clk0 m0] have "recorder_lifecycle (callsB args ev got clk0 m0)"
    using lifecycle_B by auto
  moreover have "recorder_lifecycle es" if "callsA argsA evA gotA mA = Some es"
    using callsA_shape[OF that] lifecycle_A by auto
  ultimately show ?thesis by blast
qed

text \<open>The theorem at models that finish in their second evaluation.\<close>

theorem C7_recorder_lifecycle_witness:
  "recorder_lifecycle
     [NewContext, CommandArgs [], NewModel, TraceEverOn True, NewRecorder, Trace 99,
      Open ''fifo_waveform.vcd'', TimeInc 1, Eval, Dump 1, TimeInc 1, Eval, Dump 2,
      Close, Cout (Str ''--- Simulation Finished ---''), Cout Endl,
      Cout (Str ''Waveform saved to: fifo_waveform.vcd''), Cout Endl,
      DeleteModel, DeleteContext] \<and>
   recorder_lifecycle (callsB [] (\<lambda>c m. Suc m) (\<lambda>m. 2 \<le> m) False (0::nat))"
  using C7_recorder_lifecycle[where args = "[]" and ev = "\<lambda>c m. Suc m" and got = "\<lambda>m. 2 \<le> m"
          and ?clk0.0 = False and ?m0.0 = "0::nat" and argsA = "[]" and evA = "\<lambda>t m. Suc m"
          and gotA = "\<lambda>m. 2 \<le> m" and mA = "0::nat"] ex_callsA
  by simp


section \<open>Both variants: the dump requests depend on the flag's answers only\<close>

text \<open>
  C8. The drivers are functions of their inputs, so two runs on the same inputs are the
  same run. More than that, the dump requests depend on the model only through the
  answers of its completion flag: two runs of a variant, on the same arguments and on
  models (possibly different ones) whose flags give the same answer at every check,
  issue the same dump times in the same order. For Variant A this is stated for the
  runs that end (both end, or neither does) and for the calls made up to any number of
  loop bodies.
\<close>

theorem C8_dumps_depend_on_flag_only:
  assumes A: "\<forall>k. got1 (fifo_top ((bodyA ev1 ^^ k) (setupA args m1))) =
                  got2 (fifo_top ((bodyA ev2 ^^ k) (setupA args m2)))"
    and B: "\<forall>k. got3 (top_model ((bodyB ev3 ^^ k) (setupB args c3 m3))) =
                 got4 (top_model ((bodyB ev4 ^^ k) (setupB args c4 m4)))"
  shows "map_option dump_times (callsA args ev1 got1 m1) =
           map_option dump_times (callsA args ev2 got2 m2) \<and>
         dump_times (fifo_calls ((bodyA ev1 ^^ n) (setupA args m1))) =
           dump_times (fifo_calls ((bodyA ev2 ^^ n) (setupA args m2))) \<and>
         dump_times (callsB args ev3 got3 c3 m3) = dump_times (callsB args ev4 got4 c4 m4)"
proof -
  have a: "map_option dump_times (callsA args ev1 got1 m1) =
           map_option dump_times (callsA args ev2 got2 m2)"
  proof (cases "\<exists>k. got1 (fifo_top ((bodyA ev1 ^^ k) (setupA args m1)))")
    case False
    with A have "mainA args ev1 got1 m1 = None" "mainA args ev2 got2 m2 = None"
      by (simp_all add: mainA_None_iff)
    then show ?thesis by (simp add: callsA_def)
  next
    case True
    define j where "j = (LEAST k. got1 (fifo_top ((bodyA ev1 ^^ k) (setupA args m1))))"
    have s1: "got1 (fifo_top ((bodyA ev1 ^^ j) (setupA args m1)))"
      unfolding j_def using True by (rule LeastI_ex)
    have n1: "\<forall>k<j. \<not> got1 (fifo_top ((bodyA ev1 ^^ k) (setupA args m1)))"
      unfolding j_def using not_less_Least by blast
    from s1 A have s2: "got2 (fifo_top ((bodyA ev2 ^^ j) (setupA args m2)))" by simp
    from n1 A have n2: "\<forall>k<j. \<not> got2 (fifo_top ((bodyA ev2 ^^ k) (setupA args m2)))" by simp
    show ?thesis by (simp only: callsA_dump_times[OF n1 s1] callsA_dump_times[OF n2 s2])
  qed
  have b: "dump_times (fifo_calls ((bodyA ev1 ^^ n) (setupA args m1))) =
           dump_times (fifo_calls ((bodyA ev2 ^^ n) (setupA args m2)))"
    by (simp only: dump_times_prefixA)
  have c: "dump_times (callsB args ev3 got3 c3 m3) = dump_times (callsB args ev4 got4 c4 m4)"
  proof -
    from mainB_shape[of args ev3 got3 c3 m3] obtain i where i: "i \<le> 1000"
      "mainB args ev3 got3 c3 m3 = (0, cleanupB ((bodyB ev3 ^^ i) (setupB args c3 m3)))"
      "\<forall>k<i. \<not> got3 (top_model ((bodyB ev3 ^^ k) (setupB args c3 m3)))"
      "got3 (top_model ((bodyB ev3 ^^ i) (setupB args c3 m3))) \<or> i = 1000"
      by blast
    from mainB_shape[of args ev4 got4 c4 m4] obtain j where j: "j \<le> 1000"
      "mainB args ev4 got4 c4 m4 = (0, cleanupB ((bodyB ev4 ^^ j) (setupB args c4 m4)))"
      "\<forall>k<j. \<not> got4 (top_model ((bodyB ev4 ^^ k) (setupB args c4 m4)))"
      "got4 (top_model ((bodyB ev4 ^^ j) (setupB args c4 m4))) \<or> j = 1000"
      by blast
    have "i = j"
    proof (rule ccontr)
      assume "i \<noteq> j"
      then consider "i < j" | "j < i" by linarith
      then show False
      proof cases
        case 1
        with j(1) i(4) have "got3 (top_model ((bodyB ev3 ^^ i) (setupB args c3 m3)))" by auto
        with B have "got4 (top_model ((bodyB ev4 ^^ i) (setupB args c4 m4)))" by simp
        with j(3) 1 show False by blast
      next
        case 2
        with i(1) j(4) have "got4 (top_model ((bodyB ev4 ^^ j) (setupB args c4 m4)))" by auto
        with B have "got3 (top_model ((bodyB ev3 ^^ j) (setupB args c3 m3)))" by simp
        with i(3) 2 show False by blast
      qed
    qed
    with callsB_observed(3)[OF i(1,2)] callsB_observed(3)[OF j(1,2)] show ?thesis by simp
  qed
  from a b c show ?thesis by blast
qed

text \<open>The theorem at two different models of each variant whose flags agree: one counts
  its evaluations, the other copies the context's time (Variant A) or records the clock
  values it was given (Variant B, started with the opposite clock value).\<close>

theorem C8_dumps_depend_on_flag_only_witness:
  "map_option dump_times (callsA [] (\<lambda>t m. Suc m) (\<lambda>m. 2 \<le> m) (0::nat)) =
     map_option dump_times (callsA [] (\<lambda>t m. t) (\<lambda>m. 2 \<le> m) (0::nat)) \<and>
   dump_times (callsB [] (\<lambda>c m. Suc m) (\<lambda>m. 2 \<le> m) False (0::nat)) =
     dump_times (callsB [] (\<lambda>c m. c # m) (\<lambda>m. 2 \<le> length m) True [])"
proof -
  have A: "\<forall>k. (2 \<le> fifo_top ((bodyA (\<lambda>t m. Suc m) ^^ k) (setupA [] (0::nat)))) =
               (2 \<le> fifo_top ((bodyA (\<lambda>t m. t) ^^ k) (setupA [] (0::nat))))"
    by (simp add: iterA_counter iterA_reader setupA_fields)
  have B: "\<forall>k. (2 \<le> top_model ((bodyB (\<lambda>c m. Suc m) ^^ k) (setupB [] False (0::nat)))) =
               (2 \<le> length (top_model ((bodyB (\<lambda>c m. c # m) ^^ k) (setupB [] True []))))"
    by (simp add: iterB_counter iterB_recorder setupB_fields)
  from C8_dumps_depend_on_flag_only[of "\<lambda>m. 2 \<le> m" "\<lambda>t m. Suc m" "[]" "0::nat"
          "\<lambda>m. 2 \<le> m" "\<lambda>t m. t" "0::nat"
          "\<lambda>m. 2 \<le> m" "\<lambda>c m. Suc m" False "0::nat"
          "\<lambda>m. 2 \<le> length m" "\<lambda>c m. c # m" True "[]", OF A B]
  show ?thesis by simp
qed


section \<open>Variant B: dump times and the final count\<close>

text \<open>
  C9. A run of Variant B that performs \<open>n\<close> loop iterations passes exactly the times
  \<open>0, 1, ..., n - 1\<close> to \<open>dump\<close>, in this order: the dump comes before the increment,
  so the first dump is at time 0. The number printed at the end is \<open>n\<close>, and so are the
  number of dump calls and the number of clock toggles.
\<close>

theorem C9_dumps_from_zero_B:
  "dump_times (callsB args ev got clk0 m0) =
     map int [0..<iterations (callsB args ev got clk0 m0)] \<and>
   printed (callsB args ev got clk0 m0) =
     [Str ''Simulation finished at time '',
      Num (int (iterations (callsB args ev got clk0 m0))), Endl] \<and>
   count_ev is_dump (callsB args ev got clk0 m0) = iterations (callsB args ev got clk0 m0) \<and>
   count_ev is_setclk (callsB args ev got clk0 m0) = iterations (callsB args ev got clk0 m0)"
proof -
  from mainB_shape[of args ev got clk0 m0] obtain n where le: "n \<le> 1000"
    and m: "mainB args ev got clk0 m0 = (0, cleanupB ((bodyB ev ^^ n) (setupB args clk0 m0)))"
    by blast
  note obs = callsB_observed[OF le m]
  show ?thesis unfolding obs(2) using obs(3,4,5,6) by simp
qed


section \<open>Variant B: the flag is set before the first iteration\<close>

text \<open>
  C10. In a run of Variant B whose completion flag is already set when the loop is
  reached, the body never runs: no clock toggle, no evaluation, no dump. The waveform
  file is still opened once and closed once, the printed final time is 0 and the exit
  status is 0. The whole run is the list of calls below.
\<close>

theorem C10_zero_iterations_B:
  assumes "got m0"
  shows "mainB args ev got clk0 m0 =
     (0, \<lparr> clk = clk0, top_model = m0, time = 0,
           top_calls = [CommandArgs args, NewModel, TraceEverOn True, NewRecorder, Trace 99,
                        Open ''waveform.vcd'', Close, DeleteModel,
                        Cout (Str ''Simulation finished at time ''), Cout (Num 0), Cout Endl] \<rparr>) \<and>
     iterations (callsB args ev got clk0 m0) = 0 \<and>
     count_ev is_setclk (callsB args ev got clk0 m0) = 0 \<and>
     count_ev is_dump (callsB args ev got clk0 m0) = 0 \<and>
     count_ev is_open (callsB args ev got clk0 m0) = 1 \<and>
     count_ev is_close (callsB args ev got clk0 m0) = 1"
proof -
  have "loopB ev got (setupB args clk0 m0) = setupB args clk0 m0"
    using assms by (subst loopB.simps) (simp add: setupB_fields)
  then have m: "mainB args ev got clk0 m0 =
     (0, \<lparr> clk = clk0, top_model = m0, time = 0,
           top_calls = [CommandArgs args, NewModel, TraceEverOn True, NewRecorder, Trace 99,
                        Open ''waveform.vcd'', Close, DeleteModel,
                        Cout (Str ''Simulation finished at time ''), Cout (Num 0), Cout Endl] \<rparr>)"
    by (simp add: mainB_def cleanupB_def setupB_def)
  show ?thesis unfolding callsB_def m by (simp add: iterations_def count_ev_def)
qed

text \<open>The theorem at a model whose flag is always set.\<close>

theorem C10_zero_iterations_B_witness:
  "mainB [] (\<lambda>c m. m) (\<lambda>m. True) False () =
     (0, \<lparr> clk = False, top_model = (), time = 0,
           top_calls = [CommandArgs [], NewModel, TraceEverOn True, NewRecorder, Trace 99,
                        Open ''waveform.vcd'', Close, DeleteModel,
                        Cout (Str ''Simulation finished at time ''), Cout (Num 0), Cout Endl] \<rparr>) \<and>
   printed (callsB [] (\<lambda>c m. m) (\<lambda>m. True) False ()) =
     [Str ''Simulation finished at time '', Num 0, Endl]"
  using C10_zero_iterations_B[of "\<lambda>m. True" "()" "[]" "\<lambda>c m. m" False]
  by (simp add: callsB_def)

end
